theory Spec2Isabelle
  imports Main "HOL-Library.Multiset"
begin

section \<open>The time-tracking API of project_tracking/views.py\<close>

text \<open>
  The views of \<^verbatim>\<open>src/project_tracking/views.py\<close> are embedded as functions from the
  database and the request to a result and the database after the call. The ORM queries
  (\<^verbatim>\<open>filter\<close>, \<^verbatim>\<open>get\<close>, \<^verbatim>\<open>create\<close>, \<^verbatim>\<open>order_by\<close>) become list functions over
  the rows, an exception that leaves a view is the \<open>Inl\<close> of the result, and
  \<^verbatim>\<open>timezone.now()\<close> is the argument \<open>now\<close> of every call.
\<close>

subsection \<open>Values of a request body\<close>

text \<open>
  \<^verbatim>\<open>request.data\<close> is a dictionary from keys to values; the model covers the values
  null, string and integer (a form posts strings, JSON all three).
  \<^verbatim>\<open>request.data.get(k)\<close> is \<open>None\<close> for a missing key.
\<close>

datatype pyval = PNone | PStr string | PInt int

datatype exn = ValueError | TypeError | DoesNotExist | MultipleObjectsReturned

type_synonym user_id = nat

record request =
  user :: user_id
  data :: "string \<rightharpoonup> pyval"

definition data_get :: "(string \<rightharpoonup> pyval) \<Rightarrow> string \<Rightarrow> pyval" where
  "data_get d k = (case d k of None \<Rightarrow> PNone | Some v \<Rightarrow> v)"

text \<open>Python's truth value, as \<^verbatim>\<open>if not project_id\<close> reads it.\<close>

fun truthy :: "pyval \<Rightarrow> bool" where
  "truthy PNone = False"
| "truthy (PStr s) = (s \<noteq> [])"
| "truthy (PInt i) = (i \<noteq> 0)"

subsection \<open>Python's \<^verbatim>\<open>int()\<close> and \<^verbatim>\<open>str()\<close>\<close>

definition is_space :: "char \<Rightarrow> bool" where
  "is_space c = (c \<in> set [CHR '' '', CHR 0x09, CHR 0x0A, CHR 0x0B, CHR 0x0C, CHR 0x0D])"

definition strip :: "string \<Rightarrow> string" where
  "strip s = rev (dropWhile is_space (rev (dropWhile is_space s)))"

definition is_digit :: "char \<Rightarrow> bool" where
  "is_digit c = (c \<in> set ''0123456789'')"

definition digit_val :: "char \<Rightarrow> nat" where
  "digit_val c = of_char c - 48"

text \<open>
  The digits of a decimal literal: at least one digit, and a single underscore only
  between two digits. The flag says whether the character before was a digit.
\<close>

fun parse_digits :: "bool \<Rightarrow> nat \<Rightarrow> string \<Rightarrow> nat option" where
  "parse_digits prev acc [] = (if prev then Some acc else None)"
| "parse_digits prev acc (c # cs) =
     (if is_digit c then parse_digits True (10 * acc + digit_val c) cs
      else if c = CHR ''_'' \<and> prev then parse_digits False acc cs
      else None)"

text \<open>
  \<^verbatim>\<open>int(v)\<close> of Python 3: an integer is itself; a string is stripped of white space
  and read as an optional sign and decimal digits, and raises \<^verbatim>\<open>ValueError\<close>
  otherwise; \<^verbatim>\<open>int(None)\<close> raises \<^verbatim>\<open>TypeError\<close>. Characters are ASCII.
\<close>

definition int_of_string :: "string \<Rightarrow> exn + int" where
  "int_of_string s =
     (case strip s of
        [] \<Rightarrow> Inl ValueError
      | c # cs \<Rightarrow>
          if c = CHR ''-'' then
            (case parse_digits False 0 cs of None \<Rightarrow> Inl ValueError | Some n \<Rightarrow> Inr (- int n))
          else if c = CHR ''+'' then
            (case parse_digits False 0 cs of None \<Rightarrow> Inl ValueError | Some n \<Rightarrow> Inr (int n))
          else
            (case parse_digits False 0 (c # cs) of None \<Rightarrow> Inl ValueError | Some n \<Rightarrow> Inr (int n)))"

fun py_int :: "pyval \<Rightarrow> exn + int" where
  "py_int PNone = Inl TypeError"
| "py_int (PStr s) = int_of_string s"
| "py_int (PInt i) = Inr i"

fun show_nat :: "nat \<Rightarrow> string" where
  "show_nat n =
     (if n < 10 then [char_of (48 + n)]
      else show_nat (n div 10) @ [char_of (48 + n mod 10)])"

fun py_str :: "pyval \<Rightarrow> string" where
  "py_str PNone = ''None''"
| "py_str (PStr s) = s"
| "py_str (PInt i) = (if i < 0 then CHR ''-'' # show_nat (nat (- i)) else show_nat (nat i))"

subsection \<open>Time\<close>

text \<open>
  A point in time is counted in microseconds, the resolution of \<^verbatim>\<open>datetime\<close>;
  \<^verbatim>\<open>timedelta(hours=h, minutes=m, seconds=s)\<close> is a number of microseconds.
\<close>

type_synonym timestamp = int

definition timedelta :: "nat \<Rightarrow> nat \<Rightarrow> nat \<Rightarrow> int" where
  "timedelta hours minutes seconds = (3600 * int hours + 60 * int minutes + int seconds) * 1000000"

text \<open>
  \<^verbatim>\<open>datetime.strptime(s, '%H:%M:%S')\<close>: three fields of one or two digits between
  colons, the hour at most 23 and minute and second at most 59; anything else raises
  \<^verbatim>\<open>ValueError\<close>. The result is read through its hour, minute and second.
\<close>

fun split_colon :: "string \<Rightarrow> string list" where
  "split_colon [] = [[]]"
| "split_colon (c # cs) =
     (if c = CHR '':'' then [] # split_colon cs
      else (case split_colon cs of [] \<Rightarrow> [[c]] | f # fs \<Rightarrow> (c # f) # fs))"

definition time_field :: "nat \<Rightarrow> string \<Rightarrow> nat option" where
  "time_field bound f =
     (if (length f = 1 \<or> length f = 2) \<and> list_all is_digit f
      then (let v = foldl (\<lambda>a c. 10 * a + digit_val c) 0 f
            in if v \<le> bound then Some v else None)
      else None)"

definition strptime_HMS :: "string \<Rightarrow> exn + (nat \<times> nat \<times> nat)" where
  "strptime_HMS s =
     (case split_colon s of
        [fh, fm, fs] \<Rightarrow>
          (case (time_field 23 fh, time_field 59 fm, time_field 59 fs) of
             (Some h, Some m, Some sec) \<Rightarrow> Inr (h, m, sec)
           | _ \<Rightarrow> Inl ValueError)
      | _ \<Rightarrow> Inl ValueError)"

subsection \<open>The rows and the database\<close>

text \<open>
  The fields are those the views read and write. A task refers to its project and to the
  task it continues by their ids. The table keeps its rows in insertion order, and
  \<open>task_seq\<close> is the id the next inserted task gets.
\<close>

record project_row =
  project_id :: nat
  project_name :: string
  project_user :: user_id

record task =
  task_id :: nat
  name :: string
  project :: nat
  started_at :: timestamp
  paused_at :: "timestamp option"
  seconds_paused :: int
  ended_at :: "timestamp option"
  cloned_from :: "nat option"

record db =
  projects :: "project_row list"
  tasks :: "task list"
  task_seq :: nat

text \<open>The lookup \<^verbatim>\<open>project__user=u\<close>: the task's project is a row owned by \<open>u\<close>.\<close>

definition project__user :: "db \<Rightarrow> user_id \<Rightarrow> task \<Rightarrow> bool" where
  "project__user d u t = list_ex (\<lambda>p. project_id p = project t \<and> project_user p = u) (projects d)"

text \<open>\<^verbatim>\<open>objects.get\<close>: the one row that matches, or an exception.\<close>

definition objects_get :: "('a \<Rightarrow> bool) \<Rightarrow> 'a list \<Rightarrow> exn + 'a" where
  "objects_get P rows =
     (case filter P rows of
        [] \<Rightarrow> Inl DoesNotExist
      | [x] \<Rightarrow> Inr x
      | _ \<Rightarrow> Inl MultipleObjectsReturned)"

text \<open>The keyword arguments the views pass to \<^verbatim>\<open>Task.objects.create\<close>.\<close>

record task_params =
  p_name :: "string option"
  p_project :: nat
  p_started_at :: timestamp
  p_ended_at :: "timestamp option"
  p_cloned_from :: "nat option"

text \<open>
  Modelled from the spec: the field defaults of the Task model (models.py is not among
  the sources). A task's name "defaults to a generic label", here the argument
  \<open>default_name\<close>; \<open>paused_at\<close>, \<open>ended_at\<close> and \<open>cloned_from\<close> are nullable and
  \<open>seconds_paused\<close> has "default 0". The row gets the next id and is appended.
\<close>

definition Task_objects_create :: "string \<Rightarrow> db \<Rightarrow> task_params \<Rightarrow> task \<times> db" where
  "Task_objects_create default_name d ps =
     (let new_task = \<lparr>task_id = task_seq d,
                      name = (case p_name ps of None \<Rightarrow> default_name | Some n \<Rightarrow> n),
                      project = p_project ps,
                      started_at = p_started_at ps,
                      paused_at = None,
                      seconds_paused = 0,
                      ended_at = p_ended_at ps,
                      cloned_from = p_cloned_from ps\<rparr>
      in (new_task, d\<lparr>tasks := tasks d @ [new_task], task_seq := Suc (task_seq d)\<rparr>))"

text \<open>
  Modelled from the spec: the methods \<^verbatim>\<open>toggle_paused\<close>, \<^verbatim>\<open>close\<close> and
  \<^verbatim>\<open>restart\<close> of a task store what they change (models.py is not among the sources;
  the spec's lifecycle operations change the stored task). Saving a task writes it over
  the row with its id; the views below save the task a method returns.
\<close>

definition save :: "db \<Rightarrow> task \<Rightarrow> db" where
  "save d t = d\<lparr>tasks := map (\<lambda>r. if task_id r = task_id t then t else r) (tasks d)\<rparr>"

subsection \<open>The methods of a task\<close>

text \<open>
  Modelled from the spec: \<^verbatim>\<open>Task.is_closed\<close> (models.py is not among the sources):
  "is_closed iff ended_at is not null".
\<close>

definition is_closed :: "task \<Rightarrow> bool" where
  "is_closed t = (ended_at t \<noteq> None)"

text \<open>
  Modelled from the spec: \<^verbatim>\<open>Task.toggle_paused\<close> (models.py is not among the sources):
  "If paused_at is null, sets paused_at = now. If paused_at is set, adds (now - paused_at)
  to seconds_paused and clears paused_at." The spec leaves the unit of the sum open; the
  model adds the difference of the two points in time as it is.
\<close>

definition toggle_paused :: "timestamp \<Rightarrow> task \<Rightarrow> task" where
  "toggle_paused now t =
     (case paused_at t of
        None \<Rightarrow> t\<lparr>paused_at := Some now\<rparr>
      | Some p \<Rightarrow> t\<lparr>seconds_paused := seconds_paused t + (now - p), paused_at := None\<rparr>)"

text \<open>
  Modelled from the spec: \<^verbatim>\<open>Task.close\<close> (models.py is not among the sources):
  "only ended_at is set; paused_at is left stale".
\<close>

definition close :: "timestamp \<Rightarrow> task \<Rightarrow> task" where
  "close now t = t\<lparr>ended_at := Some now\<rparr>"

text \<open>
  Modelled from the spec: \<^verbatim>\<open>Task.restart\<close> (models.py is not among the sources):
  "Resets started_at = now, ended_at = null, paused_at = null, seconds_paused = 0."
\<close>

definition restart :: "timestamp \<Rightarrow> task \<Rightarrow> task" where
  "restart now t = t\<lparr>started_at := now, ended_at := None, paused_at := None, seconds_paused := 0\<rparr>"

subsection \<open>Responses\<close>

text \<open>
  A response is a status and a body: \<^verbatim>\<open>{'error': msg}\<close>, \<^verbatim>\<open>{'detail': msg}\<close>, a
  serialised task, a list of them, or one page of such a list.
\<close>

datatype body = Error string | Detail string | TaskData task | TaskList "task list" | Page "task list"

datatype response = Response nat body

definition HTTP_200_OK :: nat where "HTTP_200_OK = 200"
definition HTTP_201_CREATED :: nat where "HTTP_201_CREATED = 201"
definition HTTP_400_BAD_REQUEST :: nat where "HTTP_400_BAD_REQUEST = 400"
definition HTTP_403_FORBIDDEN :: nat where "HTTP_403_FORBIDDEN = 403"
definition HTTP_404_NOT_FOUND :: nat where "HTTP_404_NOT_FOUND = 404"

text \<open>
  What a view yields: the response it returns or the exception that leaves it, and the
  database after the call.
\<close>

type_synonym outcome = "(exn + response) \<times> db"

subsection \<open>TasksViewSet\<close>

text \<open>
  The query both \<^verbatim>\<open>create\<close> and \<^verbatim>\<open>continue_task\<close> start with:
  \<^verbatim>\<open>Task.objects.filter(project__user=request.user, ended_at__isnull=True,
  paused_at__isnull=True)\<close>.
\<close>

definition running_tasks :: "db \<Rightarrow> user_id \<Rightarrow> task list" where
  "running_tasks d u =
     filter (\<lambda>t. project__user d u t \<and> ended_at t = None \<and> paused_at t = None) (tasks d)"

definition tasks_running_msg :: string where
  "tasks_running_msg =
     ''there are tasks running, you must pause or close them in order to create new tasks''"

text \<open>
  \<^verbatim>\<open>list\<close>: the caller's tasks, \<^verbatim>\<open>order_by('-started_at')\<close>. The paginator belongs to
  the framework's configuration and is an argument: it yields a page of the query set, or
  \<open>None\<close> when pagination is off.
\<close>

definition order_by_desc_started_at :: "task list \<Rightarrow> task list" where
  "order_by_desc_started_at ts = sort_key (\<lambda>t. - started_at t) ts"

definition list_tasks :: "(task list \<Rightarrow> task list option) \<Rightarrow> db \<Rightarrow> request \<Rightarrow> outcome" where
  "list_tasks paginate_queryset d req =
     (let query_set = order_by_desc_started_at (filter (project__user d (user req)) (tasks d))
      in case paginate_queryset query_set of
           Some page \<Rightarrow> (Inr (Response HTTP_200_OK (Page page)), d)
         | None \<Rightarrow> (Inr (Response HTTP_200_OK (TaskList query_set)), d))"

text \<open>
  \<^verbatim>\<open>create\<close> (POST /tasks). The duration branch parses the literal \<^verbatim>\<open>'01:15:05'\<close>, as
  the source does.
\<close>

definition create :: "string \<Rightarrow> timestamp \<Rightarrow> db \<Rightarrow> request \<Rightarrow> outcome" where
  "create default_name now d req =
     (if running_tasks d (user req) \<noteq> [] then
        (Inr (Response HTTP_403_FORBIDDEN (Error tasks_running_msg)), d)
      else
        let project_id_v = data_get (data req) ''project_id'';
            task_name = data_get (data req) ''name'';
            duration = data_get (data req) ''duration''
        in if \<not> truthy project_id_v then
             (Inr (Response HTTP_400_BAD_REQUEST
                (Error ''You must provide a project in order to start a new task'')), d)
           else
             let started = now in
             (case (case py_int project_id_v of
                      Inl e \<Rightarrow> Inl e
                    | Inr i \<Rightarrow>
                        objects_get (\<lambda>p. int (project_id p) = i \<and> project_user p = user req)
                          (projects d)) of
                Inl e \<Rightarrow>
                  if e = DoesNotExist \<or> e = ValueError then
                    (Inr (Response HTTP_400_BAD_REQUEST (Error ''Invalid Project'')), d)
                  else (Inl e, d)
              | Inr proj \<Rightarrow>
                  (case (if truthy duration then
                           (case strptime_HMS ''01:15:05'' of
                              Inl e \<Rightarrow> Inl e
                            | Inr (h, m, s) \<Rightarrow> Inr (Some (started + timedelta h m s)))
                         else Inr None) of
                     Inl e \<Rightarrow>
                       if e = ValueError then
                         (Inr (Response HTTP_400_BAD_REQUEST
                            (Error ''Invalid duration, format must be H:M:S'')), d)
                       else (Inl e, d)
                   | Inr ended \<Rightarrow>
                       (case Task_objects_create default_name d
                               \<lparr>p_name = (if truthy task_name then Some (py_str task_name) else None),
                                p_project = project_id proj,
                                p_started_at = started,
                                p_ended_at = ended,
                                p_cloned_from = None\<rparr> of
                          (new_task, d') \<Rightarrow>
                            (Inr (Response HTTP_201_CREATED (TaskData new_task)), d')))))"

text \<open>
  The three views on one task. The id in the path matches \<^verbatim>\<open>\d+\<close>, so it is a natural
  number; only \<^verbatim>\<open>Task.DoesNotExist\<close> is caught.
\<close>

definition get_task :: "db \<Rightarrow> request \<Rightarrow> nat \<Rightarrow> exn + task" where
  "get_task d req pk =
     objects_get (\<lambda>t. task_id t = pk \<and> project__user d (user req) t) (tasks d)"

definition pause_resume_task :: "timestamp \<Rightarrow> db \<Rightarrow> request \<Rightarrow> nat \<Rightarrow> outcome" where
  "pause_resume_task now d req pk =
     (case get_task d req pk of
        Inl e \<Rightarrow>
          if e = DoesNotExist then (Inr (Response HTTP_404_NOT_FOUND (Error ''Task not found'')), d)
          else (Inl e, d)
      | Inr t \<Rightarrow>
          if \<not> is_closed t then
            (let t' = toggle_paused now t
             in (Inr (Response HTTP_200_OK (TaskData t')), save d t'))
          else (Inr (Response HTTP_400_BAD_REQUEST (Error ''the task is already closed'')), d))"

definition close_task :: "timestamp \<Rightarrow> db \<Rightarrow> request \<Rightarrow> nat \<Rightarrow> outcome" where
  "close_task now d req pk =
     (case get_task d req pk of
        Inl e \<Rightarrow>
          if e = DoesNotExist then (Inr (Response HTTP_404_NOT_FOUND (Detail ''Task not found'')), d)
          else (Inl e, d)
      | Inr t \<Rightarrow>
          if \<not> is_closed t then
            (let t' = close now t
             in (Inr (Response HTTP_200_OK (TaskData t')), save d t'))
          else (Inr (Response HTTP_400_BAD_REQUEST (Error ''Task already closed'')), d))"

definition restart_task :: "timestamp \<Rightarrow> db \<Rightarrow> request \<Rightarrow> nat \<Rightarrow> outcome" where
  "restart_task now d req pk =
     (case get_task d req pk of
        Inl e \<Rightarrow>
          if e = DoesNotExist then (Inr (Response HTTP_404_NOT_FOUND (Detail ''Task not found'')), d)
          else (Inl e, d)
      | Inr t \<Rightarrow>
          if \<not> is_closed t then
            (let t' = restart now t
             in (Inr (Response HTTP_200_OK (TaskData t')), save d t'))
          else (Inr (Response HTTP_400_BAD_REQUEST (Error ''Task already closed'')), d))"

text \<open>
  \<^verbatim>\<open>continue_task\<close> (POST /tasks/continue). \<^verbatim>\<open>int(task_id)\<close> stands inside the
  \<^verbatim>\<open>try\<close> whose handler names \<^verbatim>\<open>Task.DoesNotExist\<close> alone, so its
  \<^verbatim>\<open>ValueError\<close> leaves the view.
\<close>

definition continue_task :: "string \<Rightarrow> timestamp \<Rightarrow> db \<Rightarrow> request \<Rightarrow> outcome" where
  "continue_task default_name now d req =
     (if running_tasks d (user req) \<noteq> [] then
        (Inr (Response HTTP_403_FORBIDDEN (Error tasks_running_msg)), d)
      else
        let task_id_v = data_get (data req) ''id''
        in if \<not> truthy task_id_v then
             (Inr (Response HTTP_400_BAD_REQUEST
                (Error ''You must provide a task id in order to continue task'')), d)
           else
             (case (case py_int task_id_v of
                      Inl e \<Rightarrow> Inl e
                    | Inr i \<Rightarrow>
                        objects_get (\<lambda>t. int (task_id t) = i \<and> project__user d (user req) t
                                           \<and> ended_at t \<noteq> None) (tasks d)) of
                Inl e \<Rightarrow>
                  if e = DoesNotExist then
                    (Inr (Response HTTP_404_NOT_FOUND (Error ''Task not found'')), d)
                  else (Inl e, d)
              | Inr t \<Rightarrow>
                  (case Task_objects_create default_name d
                          \<lparr>p_name = Some (name t),
                           p_project = project t,
                           p_started_at = now,
                           p_ended_at = None,
                           p_cloned_from = Some (task_id t)\<rparr> of
                     (new_task, d') \<Rightarrow>
                       (Inr (Response HTTP_201_CREATED (TaskData new_task)), d'))))"

subsection \<open>A sequence of calls\<close>

datatype call =
    GET_tasks request
  | POST_tasks request
  | PUT_pause_resume request nat
  | PUT_close request nat
  | PUT_restart request nat
  | POST_continue request

fun dispatch :: "string \<Rightarrow> timestamp \<Rightarrow> db \<Rightarrow> call \<Rightarrow> outcome" where
  "dispatch dn now d (GET_tasks req) = list_tasks (\<lambda>_. None) d req"
| "dispatch dn now d (POST_tasks req) = create dn now d req"
| "dispatch dn now d (PUT_pause_resume req pk) = pause_resume_task now d req pk"
| "dispatch dn now d (PUT_close req pk) = close_task now d req pk"
| "dispatch dn now d (PUT_restart req pk) = restart_task now d req pk"
| "dispatch dn now d (POST_continue req) = continue_task dn now d req"

text \<open>
  The service handles the calls one after the other, each at its own time, and keeps the
  result of each; a call that ends in an exception leaves the database as it was.
\<close>

fun serve :: "string \<Rightarrow> db \<Rightarrow> (timestamp \<times> call) list \<Rightarrow> (exn + response) list \<times> db" where
  "serve dn d [] = ([], d)"
| "serve dn d ((now, c) # cs) =
     (case dispatch dn now d c of
        (r, d') \<Rightarrow> (case serve dn d' cs of (rs, d'') \<Rightarrow> (r # rs, d'')))"

fun status_of :: "exn + response \<Rightarrow> nat option" where
  "status_of (Inl e) = None"
| "status_of (Inr (Response st b)) = Some st"

subsection \<open>A small database\<close>

text \<open>
  User 7 owns the project Alpha, user 8 the project Beta. The three tasks are the states
  of the first task of Alpha: running, paused and closed.
\<close>

definition alpha :: project_row where
  "alpha = \<lparr>project_id = 1, project_name = ''Alpha'', project_user = 7\<rparr>"

definition beta :: project_row where
  "beta = \<lparr>project_id = 2, project_name = ''Beta'', project_user = 8\<rparr>"

definition task_running :: task where
  "task_running = \<lparr>task_id = 1, name = ''Task'', project = 1, started_at = 100,
     paused_at = None, seconds_paused = 0, ended_at = None, cloned_from = None\<rparr>"

definition task_paused :: task where
  "task_paused = \<lparr>task_id = 1, name = ''Task'', project = 1, started_at = 100,
     paused_at = Some 200, seconds_paused = 0, ended_at = None, cloned_from = None\<rparr>"

definition task_closed :: task where
  "task_closed = \<lparr>task_id = 1, name = ''Task'', project = 1, started_at = 100,
     paused_at = None, seconds_paused = 0, ended_at = Some 300, cloned_from = None\<rparr>"

definition task_beta :: task where
  "task_beta = \<lparr>task_id = 2, name = ''Other'', project = 2, started_at = 150,
     paused_at = None, seconds_paused = 0, ended_at = Some 250, cloned_from = None\<rparr>"

definition db_alpha :: db where
  "db_alpha = \<lparr>projects = [alpha, beta], tasks = [], task_seq = 1\<rparr>"

definition db_running :: db where
  "db_running = \<lparr>projects = [alpha, beta], tasks = [task_running], task_seq = 2\<rparr>"

definition db_paused :: db where
  "db_paused = \<lparr>projects = [alpha, beta], tasks = [task_paused], task_seq = 2\<rparr>"

definition db_closed :: db where
  "db_closed = \<lparr>projects = [alpha, beta], tasks = [task_closed, task_beta], task_seq = 3\<rparr>"

definition task_later :: task where
  "task_later = \<lparr>task_id = 3, name = ''Later'', project = 1, started_at = 400,
     paused_at = None, seconds_paused = 0, ended_at = Some 450, cloned_from = None\<rparr>"

definition db_history :: db where
  "db_history = \<lparr>projects = [alpha, beta], tasks = [task_closed, task_beta, task_later],
     task_seq = 4\<rparr>"

text \<open>
  After the history above user 7 starts one more task: a closed task beside a running one.
\<close>

definition task_next :: task where
  "task_next = \<lparr>task_id = 4, name = ''Task'', project = 1, started_at = 460,
     paused_at = None, seconds_paused = 0, ended_at = None, cloned_from = None\<rparr>"

definition db_busy :: db where
  "db_busy = \<lparr>projects = [alpha, beta],
     tasks = [task_closed, task_beta, task_later, task_next], task_seq = 5\<rparr>"

text \<open>A request of user 7 with the given body.\<close>

definition req7 :: "(string \<times> pyval) list \<Rightarrow> request" where
  "req7 kvs = \<lparr>user = 7, data = map_of kvs\<rparr>"

text \<open>
  User 7 starts a task, pauses it, starts a second task and resumes the first.
\<close>

definition resume_beside_running :: "(timestamp \<times> call) list" where
  "resume_beside_running =
     [(100, POST_tasks (req7 [(''project_id'', PStr ''1'')])),
      (200, PUT_pause_resume (req7 []) 1),
      (300, POST_tasks (req7 [(''project_id'', PStr ''1'')])),
      (400, PUT_pause_resume (req7 []) 1)]"

section \<open>Properties\<close>

subsection \<open>The small database is reachable\<close>

text \<open>
  Each database of the example is what the service holds after a sequence of calls that
  starts with the two projects and no task.
\<close>

lemma samples_reachable:
  "snd (serve ''Task'' db_alpha [(100, POST_tasks (req7 [(''project_id'', PStr ''1'')]))])
     = db_running"
  "snd (serve ''Task'' db_running [(200, PUT_pause_resume (req7 []) 1)]) = db_paused"
  "snd (serve ''Task'' db_running
     [(150, POST_tasks \<lparr>user = 8, data = map_of [(''project_id'', PInt 2), (''name'', PStr ''Other'')]\<rparr>),
      (250, PUT_close \<lparr>user = 8, data = map_of []\<rparr> 2),
      (300, PUT_close (req7 []) 1)]) = db_closed"
  "snd (serve ''Task'' db_closed
     [(400, POST_tasks (req7 [(''project_id'', PStr ''1''), (''name'', PStr ''Later'')])),
      (450, PUT_close (req7 []) 3)]) = db_history"
  "snd (serve ''Task'' db_history [(460, POST_tasks (req7 [(''project_id'', PStr ''1'')]))])
     = db_busy"
  by code_simp+

subsection \<open>Queries\<close>

text \<open>
  A table has a primary key: the rows of the database have distinct ids. Under that
  hypothesis \<^verbatim>\<open>objects.get\<close> with the id among its conditions finds the row or raises
  \<^verbatim>\<open>DoesNotExist\<close>, and never \<^verbatim>\<open>MultipleObjectsReturned\<close>.
\<close>

lemma filter_unique_key:
  assumes "distinct (map f xs)" and "x \<in> set xs" and "P x"
    and "\<And>y. y \<in> set xs \<Longrightarrow> P y \<Longrightarrow> f y = f x"
  shows "filter P xs = [x]"
  using assms
proof (induction xs)
  case Nil
  then show ?case by simp
next
  case (Cons a xs)
  have key: "f y = f x" if "y \<in> set (a # xs)" and "P y" for y
    using that by (rule Cons.prems(4))
  have fresh: "f a \<notin> f ` set xs"
    using Cons.prems(1) by simp
  show ?case
  proof (cases "a = x")
    case True
    have "\<not> P y" if "y \<in> set xs" for y
    proof
      assume "P y"
      with that have "f y = f x" by (simp add: key)
      moreover have "f y \<in> f ` set xs" using that by (rule imageI)
      ultimately show False using fresh True by simp
    qed
    then have "filter P xs = []" by (simp add: filter_empty_conv)
    with True Cons.prems(3) show ?thesis by simp
  next
    case False
    with Cons.prems(2) have xin: "x \<in> set xs" by simp
    have "\<not> P a"
    proof
      assume "P a"
      then have "f a = f x" by (simp add: key)
      moreover have "f x \<in> f ` set xs" using xin by (rule imageI)
      ultimately show False using fresh by simp
    qed
    moreover have "filter P xs = [x]"
    proof (rule Cons.IH)
      show "distinct (map f xs)" using Cons.prems(1) by simp
      show "x \<in> set xs" by (rule xin)
      show "P x" by (rule Cons.prems(3))
      show "f y = f x" if "y \<in> set xs" and "P y" for y
        using that by (simp add: key)
    qed
    ultimately show ?thesis by simp
  qed
qed

lemma objects_get_unique:
  assumes "distinct (map f xs)" and "x \<in> set xs" and "P x"
    and "\<And>y. y \<in> set xs \<Longrightarrow> P y \<Longrightarrow> f y = f x"
  shows "objects_get P xs = Inr x"
proof -
  have "filter P xs = [x]"
    using assms(1-3) by (rule filter_unique_key) (rule assms(4))
  then show ?thesis by (simp add: objects_get_def)
qed

lemma objects_get_none:
  assumes "\<And>y. y \<in> set xs \<Longrightarrow> \<not> P y"
  shows "objects_get P xs = Inl DoesNotExist"
proof -
  have "filter P xs = []" using assms by (simp add: filter_empty_conv)
  then show ?thesis by (simp add: objects_get_def)
qed

lemma get_task_owned:
  assumes "t \<in> set (tasks d)" and "project__user d (user req) t"
    and "distinct (map task_id (tasks d))"
  shows "get_task d req (task_id t) = Inr t"
  unfolding get_task_def
proof (rule objects_get_unique [where f = task_id])
  show "distinct (map task_id (tasks d))" by (rule assms(3))
  show "t \<in> set (tasks d)" by (rule assms(1))
  show "task_id t = task_id t \<and> project__user d (user req) t" using assms(2) by simp
  show "task_id y = task_id t"
    if "y \<in> set (tasks d)" and "task_id y = task_id t \<and> project__user d (user req) y" for y
    using that(2) by simp
qed

lemma project__user_save:
  "project__user (save d t) u r = project__user d u r"
  by (simp add: project__user_def save_def)

lemma save_get_task:
  assumes "t \<in> set (tasks d)" and "project__user d (user req) t'"
    and "distinct (map task_id (tasks d))" and "task_id t' = task_id t"
  shows "get_task (save d t') req (task_id t) = Inr t'"
proof -
  let ?g = "\<lambda>r. if task_id r = task_id t' then t' else r"
  have "task_id (?g r) = task_id r" for r by simp
  then have ids: "map task_id (map ?g (tasks d)) = map task_id (tasks d)"
    by (simp add: comp_def)
  have ids': "map task_id (tasks (save d t')) = map task_id (tasks d)"
    using ids by (simp add: save_def)
  have "?g t \<in> ?g ` set (tasks d)" using assms(1) by (rule imageI)
  then have mem: "t' \<in> set (tasks (save d t'))"
    using assms(4) by (simp add: save_def)
  have own: "project__user (save d t') (user req) t'"
    using assms(2) by (simp add: project__user_save)
  have dist: "distinct (map task_id (tasks (save d t')))"
    using assms(3) ids' by simp
  have "get_task (save d t') req (task_id t') = Inr t'"
    using mem own dist by (rule get_task_owned)
  with assms(4) show ?thesis by simp
qed

lemma objects_get_Inr:
  assumes "objects_get P xs = Inr x"
  shows "x \<in> set xs \<and> P x"
proof -
  from assms have "filter P xs = [x]"
    by (simp add: objects_get_def split: list.splits)
  then have "x \<in> set (filter P xs)" by simp
  then show ?thesis by simp
qed

lemmas status_defs = HTTP_200_OK_def HTTP_201_CREATED_def HTTP_400_BAD_REQUEST_def
  HTTP_403_FORBIDDEN_def HTTP_404_NOT_FOUND_def

lemma running_tasks_empty_iff:
  "(running_tasks d u \<noteq> []) =
     (\<exists>t \<in> set (tasks d). project__user d u t \<and> ended_at t = None \<and> paused_at t = None)"
  by (auto simp: running_tasks_def filter_empty_conv)

subsection \<open>Closing a closed task\<close>

text \<open>
  Claim C5. Closing a task that is already closed (its \<open>ended_at\<close> is set) and that the
  caller owns returns 400 with \<^verbatim>\<open>{'error': 'Task already closed'}\<close> and the database is
  the one before the call, so no field of any task has changed. \<open>is_closed\<close> is read as
  the spec defines it; the branch that answers is the view's own.
\<close>

theorem close_closed_task:
  assumes "t \<in> set (tasks d)" and "project__user d (user req) t"
    and "distinct (map task_id (tasks d))" and "ended_at t \<noteq> None"
  shows "close_task now d req (task_id t) =
           (Inr (Response HTTP_400_BAD_REQUEST (Error ''Task already closed'')), d)"
  using get_task_owned [OF assms(1-3)] assms(4)
  by (simp add: close_task_def is_closed_def)

theorem close_closed_task_witness:
  "task_closed \<in> set (tasks db_closed) \<and> ended_at task_closed \<noteq> None
   \<and> close_task 900 db_closed (req7 []) 1
       = (Inr (Response HTTP_400_BAD_REQUEST (Error ''Task already closed'')), db_closed)"
proof -
  have h1: "task_closed \<in> set (tasks db_closed)" by code_simp
  have h2: "project__user db_closed (user (req7 [])) task_closed" by code_simp
  have h3: "distinct (map task_id (tasks db_closed))" by code_simp
  have h4: "ended_at task_closed \<noteq> None" by code_simp
  have i: "task_id task_closed = 1" by (simp add: task_closed_def)
  show ?thesis
    using close_closed_task [OF h1 h2 h3 h4, of 900] h1 h4 i by simp
qed

subsection \<open>Restarting a task\<close>

lemma restart_task_owned:
  assumes "t \<in> set (tasks d)" and "project__user d (user req) t"
    and "distinct (map task_id (tasks d))"
  shows "restart_task now d req (task_id t) =
           (if ended_at t = None
            then (Inr (Response HTTP_200_OK (TaskData (restart now t))), save d (restart now t))
            else (Inr (Response HTTP_400_BAD_REQUEST (Error ''Task already closed'')), d))"
  using get_task_owned [OF assms]
  by (simp add: restart_task_def is_closed_def Let_def)

text \<open>
  Claim C9. For a task the caller owns: when it is not closed, PUT /tasks/restart/{id}
  answers 200 with the task whose \<open>started_at\<close> is now, whose \<open>ended_at\<close> and
  \<open>paused_at\<close> are null and whose \<open>seconds_paused\<close> is 0, whatever these fields were,
  and that is the task the database then holds under the id; when it is closed the answer
  is 400 and the database is unchanged. The view is the source's; what
  \<^verbatim>\<open>task.restart()\<close> writes is read from the spec.
\<close>

theorem restart_resets:
  assumes "t \<in> set (tasks d)" and "project__user d (user req) t"
    and "distinct (map task_id (tasks d))"
  shows "(ended_at t = None \<longrightarrow>
            restart_task now d req (task_id t) =
              (Inr (Response HTTP_200_OK (TaskData
                 (t\<lparr>started_at := now, ended_at := None, paused_at := None, seconds_paused := 0\<rparr>))),
               save d (t\<lparr>started_at := now, ended_at := None, paused_at := None,
                 seconds_paused := 0\<rparr>))
            \<and> get_task (snd (restart_task now d req (task_id t))) req (task_id t)
                = Inr (t\<lparr>started_at := now, ended_at := None, paused_at := None,
                    seconds_paused := 0\<rparr>))
       \<and> (ended_at t \<noteq> None \<longrightarrow>
            restart_task now d req (task_id t) =
              (Inr (Response HTTP_400_BAD_REQUEST (Error ''Task already closed'')), d))"
proof -
  let ?t' = "t\<lparr>started_at := now, ended_at := None, paused_at := None, seconds_paused := 0\<rparr>"
  have r: "restart now t = ?t'" by (simp add: restart_def)
  have own: "project__user d (user req) ?t'"
    using assms(2) by (simp add: project__user_def)
  have again: "get_task (save d ?t') req (task_id t) = Inr ?t'"
    by (rule save_get_task [OF assms(1) own assms(3)]) simp
  have opn: "restart_task now d req (task_id t) =
               (Inr (Response HTTP_200_OK (TaskData ?t')), save d ?t')" if "ended_at t = None"
    using restart_task_owned [OF assms, of now] that r by simp
  have closed: "restart_task now d req (task_id t) =
               (Inr (Response HTTP_400_BAD_REQUEST (Error ''Task already closed'')), d)"
    if "ended_at t \<noteq> None"
    using restart_task_owned [OF assms, of now] that by simp
  show ?thesis
  proof (intro conjI impI)
    assume o: "ended_at t = None"
    show "restart_task now d req (task_id t) =
            (Inr (Response HTTP_200_OK (TaskData ?t')), save d ?t')"
      by (rule opn [OF o])
    show "get_task (snd (restart_task now d req (task_id t))) req (task_id t) = Inr ?t'"
      using opn [OF o] again by simp
  next
    assume "ended_at t \<noteq> None"
    then show "restart_task now d req (task_id t) =
            (Inr (Response HTTP_400_BAD_REQUEST (Error ''Task already closed'')), d)"
      by (rule closed)
  qed
qed

theorem restart_resets_witness:
  "restart_task 900 db_paused (req7 []) 1 =
     (Inr (Response HTTP_200_OK (TaskData
        \<lparr>task_id = 1, name = ''Task'', project = 1, started_at = 900, paused_at = None,
         seconds_paused = 0, ended_at = None, cloned_from = None\<rparr>)),
      db_paused\<lparr>tasks :=
        [\<lparr>task_id = 1, name = ''Task'', project = 1, started_at = 900, paused_at = None,
          seconds_paused = 0, ended_at = None, cloned_from = None\<rparr>]\<rparr>)
   \<and> restart_task 900 db_closed (req7 []) 1 =
     (Inr (Response HTTP_400_BAD_REQUEST (Error ''Task already closed'')), db_closed)"
proof -
  have p1: "task_paused \<in> set (tasks db_paused)" by code_simp
  have p2: "project__user db_paused (user (req7 [])) task_paused" by code_simp
  have p3: "distinct (map task_id (tasks db_paused))" by code_simp
  have p4: "ended_at task_paused = None" by code_simp
  have c1: "task_closed \<in> set (tasks db_closed)" by code_simp
  have c2: "project__user db_closed (user (req7 [])) task_closed" by code_simp
  have c3: "distinct (map task_id (tasks db_closed))" by code_simp
  have c4: "ended_at task_closed \<noteq> None" by code_simp
  have i: "task_id task_paused = 1" "task_id task_closed = 1"
    by (simp_all add: task_paused_def task_closed_def)
  have u: "task_paused\<lparr>started_at := 900, ended_at := None, paused_at := None, seconds_paused := 0\<rparr>
             = \<lparr>task_id = 1, name = ''Task'', project = 1, started_at = 900, paused_at = None,
                seconds_paused = 0, ended_at = None, cloned_from = None\<rparr>"
    by (simp add: task_paused_def)
  have sv: "save db_paused \<lparr>task_id = 1, name = ''Task'', project = 1, started_at = 900,
                paused_at = None, seconds_paused = 0, ended_at = None, cloned_from = None\<rparr>
             = db_paused\<lparr>tasks :=
                 [\<lparr>task_id = 1, name = ''Task'', project = 1, started_at = 900, paused_at = None,
                   seconds_paused = 0, ended_at = None, cloned_from = None\<rparr>]\<rparr>"
    by (simp add: save_def db_paused_def task_paused_def)
  show ?thesis
    using restart_resets [OF p1 p2 p3, of 900] restart_resets [OF c1 c2 c3, of 900] p4 c4 i u sv
    by simp
qed

subsection \<open>Continuing a task\<close>

text \<open>
  Claim C6, as amended. When the caller has no running task, POST /tasks/continue with
  the id of a closed task of the caller answers 201 with a new task, appended to the table
  under the next id: its name and project are the source's, \<open>cloned_from\<close> is the
  source's id, \<open>started_at\<close> is now, and \<open>paused_at\<close> and \<open>ended_at\<close> are
  null. The id is given as the view reads it: a value that is true and that \<^verbatim>\<open>int()\<close>
  turns into the id.
\<close>

theorem continue_closed_task:
  assumes "running_tasks d (user req) = []"
    and "t \<in> set (tasks d)" and "project__user d (user req) t" and "ended_at t \<noteq> None"
    and "distinct (map task_id (tasks d))"
    and "truthy (data_get (data req) ''id'')"
    and "py_int (data_get (data req) ''id'') = Inr (int (task_id t))"
  shows "continue_task dn now d req =
           (Inr (Response HTTP_201_CREATED (TaskData
              \<lparr>task_id = task_seq d, name = name t, project = project t, started_at = now,
               paused_at = None, seconds_paused = 0, ended_at = None,
               cloned_from = Some (task_id t)\<rparr>)),
            d\<lparr>tasks := tasks d @
                 [\<lparr>task_id = task_seq d, name = name t, project = project t, started_at = now,
                   paused_at = None, seconds_paused = 0, ended_at = None,
                   cloned_from = Some (task_id t)\<rparr>],
              task_seq := Suc (task_seq d)\<rparr>)"
proof -
  have "objects_get (\<lambda>r. int (task_id r) = int (task_id t) \<and> project__user d (user req) r
            \<and> ended_at r \<noteq> None) (tasks d) = Inr t"
    by (rule objects_get_unique [where f = task_id]) (use assms in auto)
  then show ?thesis
    using assms(1,6,7)
    by (simp add: continue_task_def Let_def Task_objects_create_def)
qed

theorem continue_closed_task_witness:
  "continue_task ''Task'' 500 db_history (req7 [(''id'', PStr ''3'')]) =
     (Inr (Response HTTP_201_CREATED (TaskData
        \<lparr>task_id = 4, name = ''Later'', project = 1, started_at = 500, paused_at = None,
         seconds_paused = 0, ended_at = None, cloned_from = Some 3\<rparr>)),
      db_history\<lparr>tasks := tasks db_history @
          [\<lparr>task_id = 4, name = ''Later'', project = 1, started_at = 500, paused_at = None,
            seconds_paused = 0, ended_at = None, cloned_from = Some 3\<rparr>],
        task_seq := 5\<rparr>)"
proof -
  let ?req = "req7 [(''id'', PStr ''3'')]"
  have h0: "running_tasks db_history (user ?req) = []" by code_simp
  have h1: "task_later \<in> set (tasks db_history)" by code_simp
  have h2: "project__user db_history (user ?req) task_later" by code_simp
  have h3: "ended_at task_later \<noteq> None" by code_simp
  have h4: "distinct (map task_id (tasks db_history))" by code_simp
  have h5: "truthy (data_get (data ?req) ''id'')" by code_simp
  have h6: "py_int (data_get (data ?req) ''id'') = Inr (int (task_id task_later))" by code_simp
  have f: "task_id task_later = 3" "name task_later = ''Later''" "project task_later = 1"
    by (simp_all add: task_later_def)
  have s: "task_seq db_history = 4" by (simp add: db_history_def)
  show ?thesis
    using continue_closed_task [OF h0 h1 h2 h3 h4 h5 h6, of "''Task''" 500] f s by simp
qed

text \<open>
  The claim as stated fails: the caller owns the closed task 3 and has the running task 4,
  and POST /tasks/continue with the id 3 answers 403 and creates no task.
\<close>

theorem continue_closed_beside_running:
  "task_later \<in> set (tasks db_busy) \<and> project__user db_busy 7 task_later
   \<and> ended_at task_later \<noteq> None \<and> task_id task_later = 3
   \<and> continue_task ''Task'' 500 db_busy (req7 [(''id'', PStr ''3'')])
       = (Inr (Response HTTP_403_FORBIDDEN (Error tasks_running_msg)), db_busy)
   \<and> HTTP_403_FORBIDDEN \<noteq> HTTP_201_CREATED"
  by code_simp

text \<open>
  Claim C7, as amended. For an open task of the caller, POST /tasks/continue with its id
  creates no task. The answer is 404 when the caller has no running task, and then the
  task is paused; it is 403 when the caller has a running task, which is the case whenever
  the task itself is running.
\<close>

theorem continue_open_task:
  assumes "t \<in> set (tasks d)" and "project__user d (user req) t" and "ended_at t = None"
    and "distinct (map task_id (tasks d))"
    and "truthy (data_get (data req) ''id'')"
    and "py_int (data_get (data req) ''id'') = Inr (int (task_id t))"
  shows "continue_task dn now d req =
           (Inr (if running_tasks d (user req) = []
                 then Response HTTP_404_NOT_FOUND (Error ''Task not found'')
                 else Response HTTP_403_FORBIDDEN (Error tasks_running_msg)), d)
         \<and> (paused_at t = None \<longrightarrow> running_tasks d (user req) \<noteq> [])"
proof -
  have none: "objects_get (\<lambda>r. int (task_id r) = int (task_id t) \<and> project__user d (user req) r
            \<and> ended_at r \<noteq> None) (tasks d) = Inl DoesNotExist"
  proof (rule objects_get_none)
    fix y assume y: "y \<in> set (tasks d)"
    show "\<not> (int (task_id y) = int (task_id t) \<and> project__user d (user req) y \<and> ended_at y \<noteq> None)"
    proof
      assume a: "int (task_id y) = int (task_id t) \<and> project__user d (user req) y \<and> ended_at y \<noteq> None"
      then have "task_id y = task_id t" by simp
      with y assms(1,4) have "y = t" by (simp add: distinct_map inj_on_def)
      with a assms(3) show False by simp
    qed
  qed
  have run: "paused_at t = None \<longrightarrow> running_tasks d (user req) \<noteq> []"
    using assms(1-3) running_tasks_empty_iff [of d "user req"] by auto
  show ?thesis
    using none run assms(5,6)
    by (simp add: continue_task_def Let_def)
qed

theorem continue_open_task_witness:
  "task_paused \<in> set (tasks db_paused) \<and> ended_at task_paused = None
   \<and> continue_task ''Task'' 500 db_paused (req7 [(''id'', PInt 1)])
       = (Inr (Response HTTP_404_NOT_FOUND (Error ''Task not found'')), db_paused)"
proof -
  let ?req = "req7 [(''id'', PInt 1)]"
  have h1: "task_paused \<in> set (tasks db_paused)" by code_simp
  have h2: "project__user db_paused (user ?req) task_paused" by code_simp
  have h3: "ended_at task_paused = None" by code_simp
  have h4: "distinct (map task_id (tasks db_paused))" by code_simp
  have h5: "truthy (data_get (data ?req) ''id'')" by code_simp
  have h6: "py_int (data_get (data ?req) ''id'') = Inr (int (task_id task_paused))" by code_simp
  have r: "running_tasks db_paused (user ?req) = []" by code_simp
  show ?thesis
    using continue_open_task [OF h1 h2 h3 h4 h5 h6, of "''Task''" 500] h1 h3 r by simp
qed

text \<open>
  The claim as stated fails: for a running task of the caller the answer is 403, not 404.
\<close>

theorem continue_running_task_forbidden:
  "task_running \<in> set (tasks db_running) \<and> project__user db_running 7 task_running
   \<and> ended_at task_running = None \<and> task_id task_running = 1
   \<and> continue_task ''Task'' 500 db_running (req7 [(''id'', PInt 1)])
       = (Inr (Response HTTP_403_FORBIDDEN (Error tasks_running_msg)), db_running)
   \<and> HTTP_403_FORBIDDEN \<noteq> HTTP_404_NOT_FOUND"
  by code_simp

subsection \<open>The guard against running tasks\<close>

lemma create_not_running_status:
  assumes "running_tasks d (user req) = []"
  shows "status_of (fst (create dn now d req)) \<noteq> Some HTTP_403_FORBIDDEN"
  using assms
  by (auto simp: create_def Let_def Task_objects_create_def status_defs
      split: sum.splits prod.splits option.splits)

text \<open>
  Claim C2, as amended. The status of the answer of POST /tasks is 403 exactly when the
  caller owns a running task, one with \<open>ended_at\<close> and \<open>paused_at\<close> both null; the
  answer is then the error about running tasks and no task is created. An open task that
  is paused does not make the status 403.
\<close>

theorem create_forbidden_iff_running:
  "(status_of (fst (create dn now d req)) = Some HTTP_403_FORBIDDEN)
     = (\<exists>t \<in> set (tasks d). project__user d (user req) t \<and> ended_at t = None \<and> paused_at t = None)
   \<and> ((\<exists>t \<in> set (tasks d). project__user d (user req) t \<and> ended_at t = None \<and> paused_at t = None)
        \<longrightarrow> create dn now d req
              = (Inr (Response HTTP_403_FORBIDDEN (Error tasks_running_msg)), d))"
proof (cases "running_tasks d (user req) = []")
  case True
  have no: "\<not> (\<exists>t \<in> set (tasks d). project__user d (user req) t \<and> ended_at t = None
              \<and> paused_at t = None)"
    using True running_tasks_empty_iff [of d "user req"] by simp
  have st: "status_of (fst (create dn now d req)) \<noteq> Some HTTP_403_FORBIDDEN"
    by (rule create_not_running_status [OF True])
  show ?thesis
  proof (intro conjI impI)
    show "(status_of (fst (create dn now d req)) = Some HTTP_403_FORBIDDEN)
        = (\<exists>t \<in> set (tasks d). project__user d (user req) t \<and> ended_at t = None
              \<and> paused_at t = None)"
      using no st by (intro iffI) (erule notE, assumption)+
  next
    assume "\<exists>t \<in> set (tasks d). project__user d (user req) t \<and> ended_at t = None
              \<and> paused_at t = None"
    with no show "create dn now d req
              = (Inr (Response HTTP_403_FORBIDDEN (Error tasks_running_msg)), d)"
      by (rule notE)
  qed
next
  case False
  then have c: "create dn now d req = (Inr (Response HTTP_403_FORBIDDEN (Error tasks_running_msg)), d)"
    by (simp add: create_def)
  have yes: "\<exists>t \<in> set (tasks d). project__user d (user req) t \<and> ended_at t = None
              \<and> paused_at t = None"
    using False running_tasks_empty_iff [of d "user req"] by simp
  from c have st: "status_of (fst (create dn now d req)) = Some HTTP_403_FORBIDDEN"
    by simp
  show ?thesis
  proof (intro conjI impI)
    show "(status_of (fst (create dn now d req)) = Some HTTP_403_FORBIDDEN)
        = (\<exists>t \<in> set (tasks d). project__user d (user req) t \<and> ended_at t = None
              \<and> paused_at t = None)"
      using yes st by (intro iffI) assumption+
  next
    show "create dn now d req
              = (Inr (Response HTTP_403_FORBIDDEN (Error tasks_running_msg)), d)"
      by (rule c)
  qed
qed

theorem create_forbidden_iff_running_witness:
  "status_of (fst (create ''Task'' 500 db_running (req7 [(''project_id'', PStr ''1'')])))
     = Some HTTP_403_FORBIDDEN
   \<and> create ''Task'' 500 db_running (req7 [(''project_id'', PStr ''1'')])
     = (Inr (Response HTTP_403_FORBIDDEN (Error tasks_running_msg)), db_running)
   \<and> status_of (fst (create ''Task'' 500 db_paused (req7 [(''project_id'', PStr ''1'')])))
     \<noteq> Some HTTP_403_FORBIDDEN"
proof -
  let ?req = "req7 [(''project_id'', PStr ''1'')]"
  have yes: "\<exists>t \<in> set (tasks db_running). project__user db_running (user ?req) t
               \<and> ended_at t = None \<and> paused_at t = None"
    by code_simp
  have no: "\<not> (\<exists>t \<in> set (tasks db_paused). project__user db_paused (user ?req) t
               \<and> ended_at t = None \<and> paused_at t = None)"
    by code_simp
  show ?thesis
    using create_forbidden_iff_running [of "''Task''" 500 db_running ?req]
      create_forbidden_iff_running [of "''Task''" 500 db_paused ?req] yes no
    by simp
qed

text \<open>
  The claim as stated fails: the caller owns an open task, which is paused, and POST /tasks
  answers 201 and inserts a second task.
\<close>

theorem create_beside_paused_task:
  "task_paused \<in> set (tasks db_paused) \<and> project__user db_paused 7 task_paused
   \<and> ended_at task_paused = None
   \<and> fst (create ''Task'' 500 db_paused (req7 [(''project_id'', PStr ''1'')]))
       = Inr (Response HTTP_201_CREATED (TaskData
           \<lparr>task_id = 2, name = ''Task'', project = 1, started_at = 500, paused_at = None,
            seconds_paused = 0, ended_at = None, cloned_from = None\<rparr>))
   \<and> length (tasks (snd (create ''Task'' 500 db_paused (req7 [(''project_id'', PStr ''1'')])))) = 2"
  by code_simp

text \<open>
  Claim C10. When the caller has a running task, POST /tasks and POST /tasks/continue
  answer 403 and leave the database as it is, whatever the body of the request holds:
  the guard is evaluated before \<^verbatim>\<open>project_id\<close> or \<^verbatim>\<open>id\<close> is read.
\<close>

theorem forbidden_before_validation:
  assumes "running_tasks d (user req) \<noteq> []"
  shows "create dn now d req = (Inr (Response HTTP_403_FORBIDDEN (Error tasks_running_msg)), d)
       \<and> continue_task dn now d req = (Inr (Response HTTP_403_FORBIDDEN (Error tasks_running_msg)), d)"
  using assms by (simp add: create_def continue_task_def)

theorem forbidden_before_validation_witness:
  "running_tasks db_running 7 \<noteq> []
   \<and> create ''Task'' 500 db_running (req7 [])
       = (Inr (Response HTTP_403_FORBIDDEN (Error tasks_running_msg)), db_running)
   \<and> continue_task ''Task'' 500 db_running (req7 [])
       = (Inr (Response HTTP_403_FORBIDDEN (Error tasks_running_msg)), db_running)"
proof -
  have u: "user (req7 []) = 7" by (simp add: req7_def)
  have h: "running_tasks db_running (user (req7 [])) \<noteq> []" by code_simp
  show ?thesis
    using forbidden_before_validation [OF h, of "''Task''" 500] h u by simp
qed

subsection \<open>Listing tasks\<close>

text \<open>
  Claim C8. GET /tasks builds the query set of the tasks whose project belongs to the
  caller, each of them once and no other task, ordered by \<open>started_at\<close> descending.
  The answer is 200 with that list, or with the page the framework's paginator cuts from
  it when pagination is configured.
\<close>

theorem list_tasks_owned_sorted:
  "\<exists>qs. mset qs = mset (filter (project__user d (user req)) (tasks d))
      \<and> set qs = {t \<in> set (tasks d). project__user d (user req) t}
      \<and> sorted_wrt (\<lambda>a b. started_at b \<le> started_at a) qs
      \<and> list_tasks pag d req =
          (case pag qs of
             None \<Rightarrow> (Inr (Response HTTP_200_OK (TaskList qs)), d)
           | Some page \<Rightarrow> (Inr (Response HTTP_200_OK (Page page)), d))"
proof -
  let ?qs = "order_by_desc_started_at (filter (project__user d (user req)) (tasks d))"
  have m: "mset ?qs = mset (filter (project__user d (user req)) (tasks d))"
    by (simp add: order_by_desc_started_at_def)
  have s: "set ?qs = {t \<in> set (tasks d). project__user d (user req) t}"
    by (auto simp: order_by_desc_started_at_def)
  have "sorted (map (\<lambda>t. - started_at t) ?qs)"
    unfolding order_by_desc_started_at_def by (rule sorted_sort_key)
  then have o: "sorted_wrt (\<lambda>a b. started_at b \<le> started_at a) ?qs"
    by (simp add: sorted_map)
  have r: "list_tasks pag d req =
          (case pag ?qs of
             None \<Rightarrow> (Inr (Response HTTP_200_OK (TaskList ?qs)), d)
           | Some page \<Rightarrow> (Inr (Response HTTP_200_OK (Page page)), d))"
    by (simp add: list_tasks_def Let_def split: option.splits)
  from m s o r show ?thesis by blast
qed

theorem list_tasks_owned_sorted_witness:
  "\<exists>qs. set qs = {task_closed, task_later}
      \<and> sorted_wrt (\<lambda>a b. started_at b \<le> started_at a) qs
      \<and> list_tasks (\<lambda>_. None) db_history (req7 [])
          = (Inr (Response HTTP_200_OK (TaskList qs)), db_history)"
proof -
  have own: "{t \<in> set (tasks db_history). project__user db_history (user (req7 [])) t}
               = {task_closed, task_later}"
    by (auto simp: db_history_def project__user_def req7_def alpha_def beta_def
        task_closed_def task_beta_def task_later_def)
  show ?thesis
    using list_tasks_owned_sorted [of db_history "req7 []" "\<lambda>_. None"] own by auto
qed

subsection \<open>At most one running task\<close>

text \<open>
  POST /tasks/continue answers 403 exactly when the caller has a running task, as
  POST /tasks does, and neither call gives a user a second running task: a task is
  inserted only for a caller who has none running, into a project of the caller.
\<close>

lemma continue_not_running_status:
  assumes "running_tasks d (user req) = []"
  shows "status_of (fst (continue_task dn now d req)) \<noteq> Some HTTP_403_FORBIDDEN"
  using assms
  by (auto simp: continue_task_def Let_def Task_objects_create_def status_defs
      split: sum.splits prod.splits option.splits)

lemma continue_forbidden_iff_running:
  "(status_of (fst (continue_task dn now d req)) = Some HTTP_403_FORBIDDEN)
     = (running_tasks d (user req) \<noteq> [])"
proof (cases "running_tasks d (user req) = []")
  case True
  with continue_not_running_status [OF True, of dn now] show ?thesis by simp
next
  case False
  then show ?thesis by (simp add: continue_task_def)
qed

lemma append_task_single_running:
  assumes "running_tasks d u = []"
    and "p \<in> set (projects d)" and "project_user p = u" and "project nt = project_id p"
    and "distinct (map project_id (projects d))"
    and "length (running_tasks d v) \<le> 1"
  shows "length (running_tasks (d\<lparr>tasks := tasks d @ [nt], task_seq := Suc (task_seq d)\<rparr>) v) \<le> 1"
proof -
  let ?d' = "d\<lparr>tasks := tasks d @ [nt], task_seq := Suc (task_seq d)\<rparr>"
  have pu: "project__user ?d' w t = project__user d w t" for w t
    by (simp add: project__user_def)
  have split: "running_tasks ?d' v = running_tasks d v @
      (if project__user d v nt \<and> ended_at nt = None \<and> paused_at nt = None then [nt] else [])"
    by (simp add: running_tasks_def pu)
  show ?thesis
  proof (cases "v = u")
    case True
    with assms(1) split show ?thesis by simp
  next
    case False
    have "\<not> project__user d v nt"
    proof
      assume "project__user d v nt"
      then obtain q where q: "q \<in> set (projects d)" "project_id q = project nt" "project_user q = v"
        by (auto simp: project__user_def list_ex_iff)
      with assms(4) have "project_id q = project_id p" by simp
      with q(1) assms(2,5) have "q = p" by (simp add: distinct_map inj_on_def)
      with q(3) assms(3) False show False by simp
    qed
    with split assms(6) show ?thesis by simp
  qed
qed

lemma create_effect:
  obtains (same) "snd (create dn now d req) = d"
  | (insert) p nt where "running_tasks d (user req) = []" and "p \<in> set (projects d)"
      and "project_user p = user req" and "project nt = project_id p"
      and "snd (create dn now d req) = d\<lparr>tasks := tasks d @ [nt], task_seq := Suc (task_seq d)\<rparr>"
proof (cases "running_tasks d (user req) = []")
  case False
  then have "snd (create dn now d req) = d" by (simp add: create_def)
  then show ?thesis by (rule same)
next
  case True
  show ?thesis
  proof (cases "\<exists>nt d'. create dn now d req = (Inr (Response HTTP_201_CREATED (TaskData nt)), d')")
    case False
    then have "snd (create dn now d req) = d"
      using True
      by (auto simp: create_def Let_def Task_objects_create_def
          split: sum.splits prod.splits option.splits if_splits)
    then show ?thesis by (rule same)
  next
    case c: True
    then obtain nt d' where r: "create dn now d req = (Inr (Response HTTP_201_CREATED (TaskData nt)), d')"
      by blast
    from r True obtain i p where
      g: "objects_get (\<lambda>p. int (project_id p) = i \<and> project_user p = user req) (projects d) = Inr p"
      and pn: "project nt = project_id p"
      and d': "d' = d\<lparr>tasks := tasks d @ [nt], task_seq := Suc (task_seq d)\<rparr>"
      by (auto simp: create_def Let_def Task_objects_create_def status_defs
          split: sum.splits prod.splits option.splits if_splits)
    from objects_get_Inr [OF g] have "p \<in> set (projects d)" and "project_user p = user req"
      by simp_all
    moreover from r d' have "snd (create dn now d req)
        = d\<lparr>tasks := tasks d @ [nt], task_seq := Suc (task_seq d)\<rparr>" by simp
    ultimately show ?thesis using True pn by (intro insert)
  qed
qed

lemma continue_effect:
  obtains (same) "snd (continue_task dn now d req) = d"
  | (insert) p nt where "running_tasks d (user req) = []" and "p \<in> set (projects d)"
      and "project_user p = user req" and "project nt = project_id p"
      and "snd (continue_task dn now d req)
             = d\<lparr>tasks := tasks d @ [nt], task_seq := Suc (task_seq d)\<rparr>"
proof (cases "running_tasks d (user req) = []")
  case False
  then have "snd (continue_task dn now d req) = d" by (simp add: continue_task_def)
  then show ?thesis by (rule same)
next
  case True
  show ?thesis
  proof (cases "\<exists>nt d'. continue_task dn now d req
                  = (Inr (Response HTTP_201_CREATED (TaskData nt)), d')")
    case False
    then have "snd (continue_task dn now d req) = d"
      using True
      by (auto simp: continue_task_def Let_def Task_objects_create_def
          split: sum.splits prod.splits option.splits if_splits)
    then show ?thesis by (rule same)
  next
    case c: True
    then obtain nt d' where
      r: "continue_task dn now d req = (Inr (Response HTTP_201_CREATED (TaskData nt)), d')"
      by blast
    from r True obtain i t where
      g: "objects_get (\<lambda>t. int (task_id t) = i \<and> project__user d (user req) t \<and> ended_at t \<noteq> None)
            (tasks d) = Inr t"
      and pn: "project nt = project t"
      and d': "d' = d\<lparr>tasks := tasks d @ [nt], task_seq := Suc (task_seq d)\<rparr>"
      by (auto simp: continue_task_def Let_def Task_objects_create_def status_defs
          split: sum.splits prod.splits option.splits if_splits)
    from objects_get_Inr [OF g] have "project__user d (user req) t" by simp
    then obtain p where p: "p \<in> set (projects d)" "project_id p = project t"
      "project_user p = user req"
      by (auto simp: project__user_def list_ex_iff)
    from pn p(2) have "project nt = project_id p" by simp
    moreover from r d' have "snd (continue_task dn now d req)
        = d\<lparr>tasks := tasks d @ [nt], task_seq := Suc (task_seq d)\<rparr>" by simp
    ultimately show ?thesis using True p(1,3) by (intro insert)
  qed
qed

lemma create_keeps_single_running:
  assumes "distinct (map project_id (projects d))" and "length (running_tasks d v) \<le> 1"
  shows "length (running_tasks (snd (create dn now d req)) v) \<le> 1"
proof (cases rule: create_effect [of dn now d req])
  case same
  with assms(2) show ?thesis by simp
next
  case (insert p nt)
  from append_task_single_running [OF insert(1-4) assms] insert(5) show ?thesis by simp
qed

lemma continue_keeps_single_running:
  assumes "distinct (map project_id (projects d))" and "length (running_tasks d v) \<le> 1"
  shows "length (running_tasks (snd (continue_task dn now d req)) v) \<le> 1"
proof (cases rule: continue_effect [of dn now d req])
  case same
  with assms(2) show ?thesis by simp
next
  case (insert p nt)
  from append_task_single_running [OF insert(1-4) assms] insert(5) show ?thesis by simp
qed

text \<open>
  Claim C1. The two inserting calls keep every user at one running task at most
  (\<open>create_keeps_single_running\<close>, \<open>continue_keeps_single_running\<close>), answer 403 exactly
  when the caller has a running task and are not stopped by a paused one. The views that
  resume or restart a paused task have no such guard, so the property does not hold at
  any time: user 7 starts a task, pauses it, starts a second one and resumes the first.
  All four calls succeed, and then tasks 1 and 2 of user 7 are both running.
  \<^verbatim>\<open>toggle_paused\<close> is read from the spec.
\<close>

theorem resume_breaks_single_running:
  "map status_of (fst (serve ''Task'' db_alpha resume_beside_running))
     = [Some HTTP_201_CREATED, Some HTTP_200_OK, Some HTTP_201_CREATED, Some HTTP_200_OK]
   \<and> map task_id (running_tasks (snd (serve ''Task'' db_alpha resume_beside_running)) 7) = [1, 2]"
  by code_simp

subsection \<open>The duration of a created task\<close>

lemma strptime_literal: "strptime_HMS ''01:15:05'' = Inr (1, 15, 5)"
  by code_simp

lemma create_duration_is_literal:
  assumes "running_tasks d (user req) = []"
    and "truthy (data_get (data req) ''project_id'')"
    and "py_int (data_get (data req) ''project_id'') = Inr i"
    and "objects_get (\<lambda>p. int (project_id p) = i \<and> project_user p = user req) (projects d) = Inr p"
    and "truthy (data_get (data req) ''duration'')"
  shows "\<exists>t d'. create dn now d req = (Inr (Response HTTP_201_CREATED (TaskData t)), d')
           \<and> started_at t = now \<and> ended_at t = Some (now + timedelta 1 15 5)"
  using assms
  by (simp add: create_def Let_def strptime_literal Task_objects_create_def)

text \<open>
  Claim C3. POST /tasks with a duration ends the task at \<open>started_at\<close> plus 1:15:05,
  the literal the view parses, whatever duration the caller sent
  (\<open>create_duration_is_literal\<close>). With the duration \<^verbatim>\<open>02:00:00\<close>, which
  \<^verbatim>\<open>strptime\<close> reads as two hours, the task ends 4505 seconds after its start and not
  7200.
\<close>

theorem create_ignores_duration:
  "fst (create ''Task'' 1000 db_alpha
          (req7 [(''project_id'', PStr ''1''), (''duration'', PStr ''02:00:00'')]))
     = Inr (Response HTTP_201_CREATED (TaskData
         \<lparr>task_id = 1, name = ''Task'', project = 1, started_at = 1000, paused_at = None,
          seconds_paused = 0, ended_at = Some (1000 + timedelta 1 15 5), cloned_from = None\<rparr>))
   \<and> strptime_HMS ''02:00:00'' = Inr (2, 0, 0)
   \<and> timedelta 1 15 5 = 4505000000 \<and> timedelta 2 0 0 = 7200000000"
  by code_simp

subsection \<open>An id that is not an integer\<close>

lemma continue_non_integer_id_raises:
  assumes "running_tasks d (user req) = []"
    and "data_get (data req) ''id'' = PStr s" and "s \<noteq> []"
    and "int_of_string s = Inl ValueError"
  shows "continue_task dn now d req = (Inl ValueError, d)"
  using assms by (simp add: continue_task_def Let_def)

lemma create_non_integer_project_caught:
  assumes "running_tasks d (user req) = []"
    and "data_get (data req) ''project_id'' = PStr s" and "s \<noteq> []"
    and "int_of_string s = Inl ValueError"
  shows "create dn now d req =
           (Inr (Response HTTP_400_BAD_REQUEST (Error ''Invalid Project'')), d)"
  using assms by (simp add: create_def Let_def)

text \<open>
  Claim C4. POST /tasks/continue with an id that is a non-empty string and not an integer,
  from a caller without a running task, ends in \<^verbatim>\<open>ValueError\<close>: the exception leaves
  the view and no 400 is answered (\<open>continue_non_integer_id_raises\<close>). POST /tasks
  catches the same exception of \<^verbatim>\<open>int(project_id)\<close> and answers 400.
\<close>

theorem continue_malformed_id_raises:
  "continue_task ''Task'' 500 db_closed (req7 [(''id'', PStr ''abc'')]) = (Inl ValueError, db_closed)
   \<and> create ''Task'' 500 db_closed (req7 [(''project_id'', PStr ''abc'')])
       = (Inr (Response HTTP_400_BAD_REQUEST (Error ''Invalid Project'')), db_closed)"
  by code_simp

end
